theory Spec2Isabelle
  imports Complex_Main "HOL-Library.Word" "HOL-Library.Log_Nat" "HOL-Library.AList" "HOL-Library.Multiset"
begin

unbundle bit_operations_syntax

section \<open>Go values used by the comparison engine\<close>

text \<open>
  A nucleotide code is a \<^verbatim>\<open>uint8\<close>. A run of the program ends by returning an error
  value, by returning \<^verbatim>\<open>nil\<close>, or by a runtime panic (an index out of range);
  \<open>Panic\<close> is the last of these.
\<close>

type_synonym u8 = "8 word"

datatype error = Panic | Err string

subsection \<open>float64\<close>

text \<open>
  A \<^verbatim>\<open>float64\<close> is modelled by the value it denotes: a rational, one of the two
  infinities, or NaN. The sign of a zero is not kept: every zero of this program is
  \<open>+0\<close> (counters that start at \<^verbatim>\<open>0.0\<close> and only grow, and quotients of those).
  \<open>round_f64\<close> is IEEE 754 rounding to nearest, ties to even, into binary64: 53
  significant bits, exponents from \<open>-1022\<close> (below it the spacing stays
  \<open>2 powi - 1074\<close>) to \<open>1023\<close> (above it the result is an infinity).
\<close>

datatype float64 = NaN | NegInf | Fin rat | PosInf

definition binade :: "rat \<Rightarrow> int" where
  "binade q = (let (a, b) = quotient_of q; k = bitlen a - bitlen b
               in if 2 powi k \<le> q then k else k - 1)"

definition round_half_even :: "rat \<Rightarrow> int" where
  "round_half_even x = (let f = \<lfloor>x\<rfloor>; d = x - of_int f
                        in if d < 1 / 2 then f
                           else if 1 / 2 < d then f + 1
                           else if even f then f else f + 1)"

definition round_f64 :: "rat \<Rightarrow> float64" where
  "round_f64 q = (if q = 0 then Fin 0
                  else let e = max (binade \<bar>q\<bar>) (- 1022);
                           u = 2 powi (e - 52);
                           r = of_int (round_half_even (\<bar>q\<bar> / u)) * u
                       in if 2 powi 1024 \<le> r then (if 0 < q then PosInf else NegInf)
                          else Fin (sgn q * r))"

text \<open>Go's \<^verbatim>\<open>+\<close> and \<^verbatim>\<open>/\<close> on float64.\<close>

fun float64_add :: "float64 \<Rightarrow> float64 \<Rightarrow> float64" where
  "float64_add (Fin a) (Fin b) = round_f64 (a + b)"
| "float64_add NaN _ = NaN"
| "float64_add _ NaN = NaN"
| "float64_add PosInf NegInf = NaN"
| "float64_add NegInf PosInf = NaN"
| "float64_add PosInf _ = PosInf"
| "float64_add NegInf _ = NegInf"
| "float64_add _ PosInf = PosInf"
| "float64_add _ NegInf = NegInf"

fun float64_div :: "float64 \<Rightarrow> float64 \<Rightarrow> float64" where
  "float64_div (Fin a) (Fin b) =
     (if b = 0 then (if a = 0 then NaN else if 0 < a then PosInf else NegInf)
      else round_f64 (a / b))"
| "float64_div NaN _ = NaN"
| "float64_div _ NaN = NaN"
| "float64_div (Fin a) _ = Fin 0"
| "float64_div PosInf (Fin b) = (if 0 \<le> b then PosInf else NegInf)"
| "float64_div NegInf (Fin b) = (if 0 \<le> b then NegInf else PosInf)"
| "float64_div _ _ = NaN"

text \<open>Go's \<^verbatim>\<open>==\<close> and \<^verbatim>\<open><\<close> on float64: every comparison with NaN is false.\<close>

fun float64_eq :: "float64 \<Rightarrow> float64 \<Rightarrow> bool" where
  "float64_eq (Fin a) (Fin b) = (a = b)"
| "float64_eq PosInf PosInf = True"
| "float64_eq NegInf NegInf = True"
| "float64_eq _ _ = False"

fun float64_lt :: "float64 \<Rightarrow> float64 \<Rightarrow> bool" where
  "float64_lt (Fin a) (Fin b) = (a < b)"
| "float64_lt NegInf (Fin b) = True"
| "float64_lt NegInf PosInf = True"
| "float64_lt (Fin a) PosInf = True"
| "float64_lt _ _ = False"

definition float64_le :: "float64 \<Rightarrow> float64 \<Rightarrow> bool" where
  "float64_le a b = (float64_lt a b \<or> float64_eq a b)"

section \<open>Package closest: selecting the closest target\<close>

text \<open>
  \<^verbatim>\<open>getMinFloatIndices\<close>: the loop \<^verbatim>\<open>for i := 0; i < len(V); i++\<close> over the
  remaining elements, with the index \<open>i\<close>, the running \<open>min\<close> (here \<open>minV\<close>) and the slice \<open>I\<close>.
\<close>

fun minFloatLoop :: "float64 list \<Rightarrow> nat \<Rightarrow> float64 \<Rightarrow> nat list \<Rightarrow> nat list" where
  "minFloatLoop [] i minV I = I"
| "minFloatLoop (score # V) i minV I =
     (if i = 0 then minFloatLoop V (i + 1) score (I @ [i])
      else if float64_eq score minV then minFloatLoop V (i + 1) minV (I @ [i])
      else if float64_lt score minV then minFloatLoop V (i + 1) score [i]
      else minFloatLoop V (i + 1) minV I)"

definition getMinFloatIndices :: "float64 list \<Rightarrow> nat list" where
  "getMinFloatIndices V = minFloatLoop V 0 (Fin 0) []"

fun maxIntLoop :: "int list \<Rightarrow> nat \<Rightarrow> int \<Rightarrow> nat list \<Rightarrow> nat list" where
  "maxIntLoop [] i maxV I = I"
| "maxIntLoop (score # V) i maxV I =
     (if i = 0 then maxIntLoop V (i + 1) score (I @ [i])
      else if score = maxV then maxIntLoop V (i + 1) maxV (I @ [i])
      else if maxV < score then maxIntLoop V (i + 1) score [i]
      else maxIntLoop V (i + 1) maxV I)"

definition getMaxIntIndices :: "int list \<Rightarrow> nat list" where
  "getMaxIntIndices V = maxIntLoop V 0 0 []"

text \<open>Reading a slice at an index panics when the index is out of range.\<close>

definition index :: "'a list \<Rightarrow> nat \<Rightarrow> error + 'a" where
  "index xs i = (if i < length xs then Inr (xs ! i) else Inl Panic)"

fun mapM :: "('a \<Rightarrow> error + 'b) \<Rightarrow> 'a list \<Rightarrow> error + 'b list" where
  "mapM f [] = Inr []"
| "mapM f (x # xs) =
     (case f x of
        Inl e \<Rightarrow> Inl e
      | Inr y \<Rightarrow> (case mapM f xs of Inl e \<Rightarrow> Inl e | Inr ys \<Rightarrow> Inr (y # ys)))"

definition getBestTargetIndex :: "float64 list \<Rightarrow> int list \<Rightarrow> error + nat" where
  "getBestTargetIndex differencesV completenessV =
     (let distanceMinIndices = getMinFloatIndices differencesV
      in if 1 < length distanceMinIndices
         then (case mapM (index completenessV) distanceMinIndices of
                 Inl e \<Rightarrow> Inl e
               | Inr completenesses \<Rightarrow>
                   (case index (getMaxIntIndices completenesses) 0 of
                      Inl e \<Rightarrow> Inl e
                    | Inr c0 \<Rightarrow> index distanceMinIndices c0))
         else index distanceMinIndices 0)"

section \<open>Package closest: distances and SNPs\<close>

text \<open>
  A loop body that can panic is a function into \<open>error + 's\<close>; \<open>foldM\<close> runs it over the
  loop's range and stops at the first panic.
\<close>

fun foldM :: "('a \<Rightarrow> 's \<Rightarrow> error + 's) \<Rightarrow> 'a list \<Rightarrow> 's \<Rightarrow> error + 's" where
  "foldM f [] s = Inr s"
| "foldM f (x # xs) s = (case f x s of Inl e \<Rightarrow> Inl e | Inr s' \<Rightarrow> foldM f xs s')"

text \<open>
  The two tests of a column in \<^verbatim>\<open>getDifferenceMatrix\<close>, on the codes \<open>x\<close> and \<open>y\<close>:
  \<^verbatim>\<open>different := (x & y) < 16\<close> and \<^verbatim>\<open>same := (x&8 == 8) && x == y\<close>.
\<close>

definition different :: "u8 \<Rightarrow> u8 \<Rightarrow> bool" where
  "different x y \<longleftrightarrow> (x AND y) < 16"

definition same :: "u8 \<Rightarrow> u8 \<Rightarrow> bool" where
  "same x y \<longleftrightarrow> x AND 8 = 8 \<and> x = y"

text \<open>
  The body of the loop over the columns \<open>r\<close>, on the pair of counters
  \<open>(differences, denominator)\<close>.
\<close>

definition column :: "u8 list \<Rightarrow> u8 list \<Rightarrow> nat \<Rightarrow> float64 \<times> float64 \<Rightarrow> error + float64 \<times> float64" where
  "column targetV queryV r acc =
     (case index targetV r of
        Inl e \<Rightarrow> Inl e
      | Inr x \<Rightarrow>
          (case index queryV r of
             Inl e \<Rightarrow> Inl e
           | Inr y \<Rightarrow>
               (let differences = fst acc; denominator = snd acc
                in Inr (if different x y then float64_add differences (Fin 1) else differences,
                        if different x y \<or> same x y then float64_add denominator (Fin 1)
                        else denominator))))"

definition count_columns :: "u8 list \<Rightarrow> u8 list \<Rightarrow> nat \<Rightarrow> error + float64 \<times> float64" where
  "count_columns targetV queryV alignmentlength =
     foldM (column targetV queryV) [0..<alignmentlength] (Fin 0, Fin 0)"

text \<open>One cell \<^verbatim>\<open>D[queryIndex][targetIndex]\<close> of the matrix.\<close>

definition distance :: "u8 list \<Rightarrow> u8 list \<Rightarrow> nat \<Rightarrow> error + float64" where
  "distance queryV targetV alignmentlength =
     (case count_columns targetV queryV alignmentlength of
        Inl e \<Rightarrow> Inl e
      | Inr (differences, denominator) \<Rightarrow> Inr (float64_div differences denominator))"

definition getDifferenceMatrix :: "u8 list list \<Rightarrow> u8 list list \<Rightarrow> error + float64 list list" where
  "getDifferenceMatrix queryA targetA =
     (case index queryA 0 of
        Inl e \<Rightarrow> Inl e
      | Inr q0 \<Rightarrow>
          mapM (\<lambda>queryV. mapM (\<lambda>targetV. distance queryV targetV (length q0)) targetA) queryA)"

text \<open>
  \<^verbatim>\<open>scoreAlignment\<close>. The table \<^verbatim>\<open>encoding.MakeScoreDict()\<close> is not part of the
  sources at hand and is a parameter. Go's \<^verbatim>\<open>int\<close> is taken to be 64 bits wide; \<open>int64\<close>
  is its wrap-around.
\<close>

definition int64 :: "int \<Rightarrow> int" where
  "int64 i = sint (word_of_int i :: 64 word)"

definition scoreAlignment :: "(u8 \<Rightarrow> int) \<Rightarrow> u8 list list \<Rightarrow> int list" where
  "scoreAlignment scoreDict A =
     map (\<lambda>a. fold (\<lambda>nuc score. int64 (score + scoreDict nuc)) a 0) A"

text \<open>\<^verbatim>\<open>strconv.Itoa\<close> and \<^verbatim>\<open>strings.Join\<close> of the Go library.\<close>

definition digit :: "nat \<Rightarrow> char" where
  "digit d = ''0123456789'' ! d"

function decimal :: "nat \<Rightarrow> string" where
  "decimal n = (if n < 10 then [digit n] else decimal (n div 10) @ [digit (n mod 10)])"
  by pat_completeness auto
termination
  by (relation "measure (\<lambda>n. n)") auto

declare decimal.simps [simp del]

definition Itoa :: "int \<Rightarrow> string" where
  "Itoa i = (if i < 0 then CHR ''-'' # decimal (nat (- i)) else decimal (nat i))"

fun Join :: "string list \<Rightarrow> string \<Rightarrow> string" where
  "Join [] sep = []"
| "Join [a] sep = a"
| "Join (a # b # elems) sep = a @ sep @ Join (b # elems) sep"

text \<open>
  \<^verbatim>\<open>getSNPs\<close> of package closest. The table \<^verbatim>\<open>encoding.MakeNucDict()\<close> is a
  parameter: a Go map from a code to its letter, which reads as the empty string at a
  code it does not hold.
\<close>

definition snp :: "(u8 \<Rightarrow> string) \<Rightarrow> u8 list \<Rightarrow> u8 list \<Rightarrow> nat \<Rightarrow> string list \<Rightarrow> error + string list" where
  "snp nucDict queryV targetV r SNPs =
     (case index queryV r of
        Inl e \<Rightarrow> Inl e
      | Inr x \<Rightarrow>
          (case index targetV r of
             Inl e \<Rightarrow> Inl e
           | Inr y \<Rightarrow>
               (if different x y
                then Inr (SNPs @ [Itoa (int (r + 1)) @ nucDict x @ nucDict y])
                else Inr SNPs)))"

definition getSNPs :: "(u8 \<Rightarrow> string) \<Rightarrow> u8 list \<Rightarrow> u8 list \<Rightarrow> error + string list" where
  "getSNPs nucDict queryV targetV = foldM (snp nucDict queryV targetV) [0..<length targetV] []"

section \<open>Package closest: chunks, the output file and the run\<close>

record csvRows =
  id_csvRows :: nat
  rows :: "string list"

text \<open>One iteration of the loop of \<^verbatim>\<open>processChunk\<close>: the row of the query \<open>queryi\<close>.\<close>

definition chunk_row ::
  "(u8 \<Rightarrow> string) \<Rightarrow> u8 list list \<Rightarrow> string list \<Rightarrow> u8 list list \<Rightarrow> string list \<Rightarrow> int list \<Rightarrow>
   float64 list list \<Rightarrow> nat \<Rightarrow> error + string" where
  "chunk_row nucDict QA Qnames TA Tnames targetScores D queryi =
     (case index D queryi of
        Inl e \<Rightarrow> Inl e
      | Inr differencesV \<Rightarrow>
     (case getBestTargetIndex differencesV targetScores of
        Inl e \<Rightarrow> Inl e
      | Inr bestIndx \<Rightarrow>
     (case index QA queryi of
        Inl e \<Rightarrow> Inl e
      | Inr queryV \<Rightarrow>
     (case index TA bestIndx of
        Inl e \<Rightarrow> Inl e
      | Inr targetV \<Rightarrow>
     (case getSNPs nucDict queryV targetV of
        Inl e \<Rightarrow> Inl e
      | Inr SNPs \<Rightarrow>
     (case index Qnames queryi of
        Inl e \<Rightarrow> Inl e
      | Inr Qname \<Rightarrow>
     (case index Tnames bestIndx of
        Inl e \<Rightarrow> Inl e
      | Inr Tname \<Rightarrow>
          Inr (Qname @ '','' @ Tname @ '','' @ Itoa (int (length SNPs)) @ '','' @
               Join SNPs '';'' @ [CHR 0x0A]))))))))"

definition processChunk ::
  "(u8 \<Rightarrow> string) \<Rightarrow> nat \<Rightarrow> u8 list list \<Rightarrow> string list \<Rightarrow> u8 list list \<Rightarrow> string list \<Rightarrow> int list \<Rightarrow>
   error + csvRows" where
  "processChunk nucDict ident QA Qnames TA Tnames targetScores =
     (case getDifferenceMatrix QA TA of
        Inl e \<Rightarrow> Inl e
      | Inr D \<Rightarrow>
          (case mapM (chunk_row nucDict QA Qnames TA Tnames targetScores D) [0..<length QA] of
             Inl e \<Rightarrow> Inl e
           | Inr S \<Rightarrow> Inr \<lparr>id_csvRows = ident, rows = S\<rparr>))"

text \<open>
  The output file. \<^verbatim>\<open>os.Create\<close> either fails or gives an empty file; a write either
  appends its string or fails. The code stops at the first write that fails, so what it
  can observe of a file is the number of writes that succeed before one fails
  (\<open>failing_after\<close>, \<open>None\<close> when none fails).
\<close>

record writer =
  contents :: "string list"
  failing_after :: "nat option"

record os_env =
  create_error :: "error option"
  write_limit :: "nat option"

definition Create :: "os_env \<Rightarrow> error + writer" where
  "Create env =
     (case create_error env of
        Some err \<Rightarrow> Inl err
      | None \<Rightarrow> Inr \<lparr>contents = [], failing_after = write_limit env\<rparr>)"

definition Write :: "string \<Rightarrow> writer \<Rightarrow> error option \<times> writer" where
  "Write s w =
     (case failing_after w of
        None \<Rightarrow> (None, w\<lparr>contents := contents w @ [s]\<rparr>)
      | Some 0 \<Rightarrow> (Some (Err ''write failed''), w)
      | Some (Suc n) \<Rightarrow> (None, w\<lparr>contents := contents w @ [s], failing_after := Some n\<rparr>))"

text \<open>\<^verbatim>\<open>writeResults\<close>: the two nested loops, then the function.\<close>

fun write_rows :: "string list \<Rightarrow> writer \<Rightarrow> error option \<times> writer" where
  "write_rows [] f = (None, f)"
| "write_rows (row # chunk) f =
     (case Write row f of
        (Some err3, f') \<Rightarrow> (Some err3, f')
      | (None, f') \<Rightarrow> write_rows chunk f')"

fun write_chunks :: "string list list \<Rightarrow> writer \<Rightarrow> error option \<times> writer" where
  "write_chunks [] f = (None, f)"
| "write_chunks (chunk # A) f =
     (case write_rows chunk f of
        (Some err3, f') \<Rightarrow> (Some err3, f')
      | (None, f') \<Rightarrow> write_chunks A f')"

definition writeResults :: "string list list \<Rightarrow> os_env \<Rightarrow> error option \<times> writer option" where
  "writeResults A env =
     (case Create env of
        Inl err \<Rightarrow> (Some err, None)
      | Inr f \<Rightarrow>
          (case Write (''query,closest,SNPdistance,SNPs'' @ [CHR 0x0A]) f of
             (Some err2, f') \<Rightarrow> (Some err2, Some f')
           | (None, f') \<Rightarrow> (case write_chunks A f' of (err3, f'') \<Rightarrow> (err3, Some f''))))"

text \<open>
  The conversions and \<^verbatim>\<open>math.Floor\<close> in the computation of \<^verbatim>\<open>chunkSize\<close>. The
  conversion of a float64 that no \<^verbatim>\<open>int\<close> represents is implementation-dependent in
  Go; \<open>int_of_float64\<close> gives the value of amd64 then.
\<close>

definition float64_of_int :: "int \<Rightarrow> float64" where
  "float64_of_int n = round_f64 (of_int n)"

fun Floor :: "float64 \<Rightarrow> float64" where
  "Floor (Fin q) = Fin (of_int \<lfloor>q\<rfloor>)"
| "Floor x = x"

fun int_of_float64 :: "float64 \<Rightarrow> int" where
  "int_of_float64 (Fin q) =
     (let t = (if 0 \<le> q then \<lfloor>q\<rfloor> else \<lceil>q\<rceil>)
      in if - (2 ^ 63) \<le> t \<and> t < 2 ^ 63 then t else - (2 ^ 63))"
| "int_of_float64 x = - (2 ^ 63)"

text \<open>
  A slice expression \<^verbatim>\<open>xs[start:end]\<close> panics when its bounds are out of range; the
  capacity of \<open>xs\<close> is taken to be its length.
\<close>

definition slice :: "'a list \<Rightarrow> int \<Rightarrow> int \<Rightarrow> error + 'a list" where
  "slice xs start stop =
     (if 0 \<le> start \<and> start \<le> stop \<and> stop \<le> int (length xs)
      then Inr (take (nat (stop - start)) (drop (nat start) xs))
      else Inl Panic)"

text \<open>
  The \<open>i\<close>-th iteration of the loop that starts the goroutines: the two slices, taken by
  the caller, and the result that the goroutine sends.
\<close>

definition chunk ::
  "(u8 \<Rightarrow> string) \<Rightarrow> u8 list list \<Rightarrow> string list \<Rightarrow> u8 list list \<Rightarrow> string list \<Rightarrow> int list \<Rightarrow>
   int \<Rightarrow> int \<Rightarrow> nat \<Rightarrow> error + csvRows" where
  "chunk nucDict QA Qnames TA Tnames targetScores NGoRoutines chunkSize i =
     (let start = int i * chunkSize;
          stop = (if int i = NGoRoutines - 1 then int (length QA) else start + chunkSize)
      in case slice QA start stop of
           Inl e \<Rightarrow> Inl e
         | Inr QAi \<Rightarrow>
             (case slice Qnames start stop of
                Inl e \<Rightarrow> Inl e
              | Inr Qnamesi \<Rightarrow> processChunk nucDict i QAi Qnamesi TA Tnames targetScores))"

text \<open>
  The loop that receives the results: \<open>arrival\<close> lists the chunk ids in the order in which
  their results arrive, a permutation of \<open>0, \<dots>, NGoRoutines - 1\<close> that the scheduler
  chooses.
\<close>

definition collect :: "csvRows list \<Rightarrow> nat list \<Rightarrow> string list list \<Rightarrow> string list list" where
  "collect results arrival sortedA =
     fold (\<lambda>j sortedA. let output = results ! j in sortedA[id_csvRows output := rows output])
       arrival sortedA"

text \<open>
  \<^verbatim>\<open>Closest\<close>. \<^verbatim>\<open>fastaio.PopulateByteArrayGetNames\<close> is not part of the sources at
  hand: what it returns for the query and for the target file are the parameters \<open>query\<close>
  and \<open>target\<close>. The result is the error that \<^verbatim>\<open>Closest\<close> returns (\<open>None\<close> for
  \<^verbatim>\<open>nil\<close>, \<open>Some Panic\<close> when the program panics), and the output file, if one was
  created. The lines printed to the standard output are left out.
\<close>

definition Closest ::
  "(u8 \<Rightarrow> string) \<Rightarrow> (u8 \<Rightarrow> int) \<Rightarrow> error + u8 list list \<times> string list \<Rightarrow>
   error + u8 list list \<times> string list \<Rightarrow> int \<Rightarrow> nat list \<Rightarrow> os_env \<Rightarrow> error option \<times> writer option" where
  "Closest nucDict scoreDict query target threads arrival env =
     (case query of
        Inl err \<Rightarrow> (Some err, None)
      | Inr (QA, Qnames) \<Rightarrow>
     if length QA \<noteq> length Qnames then (Some (Err ''error parsing query alignment''), None)
     else
     (case target of
        Inl err \<Rightarrow> (Some err, None)
      | Inr (TA, Tnames) \<Rightarrow>
     if length TA \<noteq> length Tnames then (Some (Err ''error parsing target alignment''), None)
     else
     (case index QA 0 of
        Inl e \<Rightarrow> (Some e, None)
      | Inr q0 \<Rightarrow>
     (case index TA 0 of
        Inl e \<Rightarrow> (Some e, None)
      | Inr t0 \<Rightarrow>
     if length q0 \<noteq> length t0
     then (Some (Err ''query and target alignments are not the same width''), None)
     else
       (let targetScores = scoreAlignment scoreDict TA;
            NGoRoutines = (if int (length QA) < threads then int (length QA) else threads);
            chunkSize = int_of_float64 (Floor (float64_div (float64_of_int (int (length QA)))
                                                           (float64_of_int NGoRoutines)))
        in case mapM (chunk nucDict QA Qnames TA Tnames targetScores NGoRoutines chunkSize)
                  [0..<nat NGoRoutines] of
             Inl e \<Rightarrow> (Some e, None)
           | Inr results \<Rightarrow>
               if NGoRoutines < 0 then (Some Panic, None)
               else (case writeResults (collect results arrival (replicate (nat NGoRoutines) [])) env of
                       (err, f) \<Rightarrow> (None, f)))))))"

section \<open>Package snps\<close>

text \<open>
  The fields of \<^verbatim>\<open>fastaio.EncodedFastaRecord\<close> that the package reads, and its own
  \<^verbatim>\<open>snpLine\<close>.
\<close>

record EncodedFastaRecord =
  ID :: string
  Seq :: "u8 list"
  Idx :: int

record snpLine =
  queryname :: string
  snps :: "string list"
  idx :: int

text \<open>
  \<^verbatim>\<open>getSNPs\<close> of package snps: the body of the loop over the columns of one record,
  the \<^verbatim>\<open>snpLine\<close> of one record, and the loop over the records that one worker
  receives. The table \<^verbatim>\<open>encoding.MakeDecodingArray()\<close> is a parameter.
\<close>

definition snp_snps :: "(u8 \<Rightarrow> string) \<Rightarrow> u8 list \<Rightarrow> u8 list \<Rightarrow> nat \<Rightarrow> string list \<Rightarrow> error + string list" where
  "snp_snps DA refSeq seq i SNPs =
     (case index seq i of
        Inl e \<Rightarrow> Inl e
      | Inr nuc \<Rightarrow>
          (case index refSeq i of
             Inl e \<Rightarrow> Inl e
           | Inr ref \<Rightarrow>
               (if (ref AND nuc) < 16
                then Inr (SNPs @ [DA ref @ Itoa (int (i + 1)) @ DA nuc])
                else Inr SNPs)))"

definition snpLine_of :: "(u8 \<Rightarrow> string) \<Rightarrow> u8 list \<Rightarrow> EncodedFastaRecord \<Rightarrow> error + snpLine" where
  "snpLine_of DA refSeq FR =
     (case foldM (snp_snps DA refSeq (Seq FR)) [0..<length (Seq FR)] [] of
        Inl e \<Rightarrow> Inl e
      | Inr SNPs \<Rightarrow> Inr \<lparr>queryname = ID FR, snps = SNPs, idx = Idx FR\<rparr>)"

definition getSNPs_snps :: "(u8 \<Rightarrow> string) \<Rightarrow> u8 list \<Rightarrow> EncodedFastaRecord list \<Rightarrow> error + snpLine list" where
  "getSNPs_snps DA refSeq cFR = mapM (snpLine_of DA refSeq) cFR"

text \<open>
  \<^verbatim>\<open>writeOutput\<close>. The map \<^verbatim>\<open>outputMap\<close> is an association list with one entry per
  key; \<open>cSNPs\<close> lists the lines in the order in which they arrive on the channel, until
  it is closed. The result is the error sent on \<^verbatim>\<open>cErr\<close> (\<open>None\<close> when
  \<^verbatim>\<open>cWriteDone\<close> is signalled instead) and the writer; the last loop may run forever,
  which is the result \<open>None\<close>.
\<close>

definition line :: "snpLine \<Rightarrow> string" where
  "line SL = queryname SL @ '','' @ Join (snps SL) ''|'' @ [CHR 0x0A]"

definition lookup :: "(int \<times> snpLine) list \<Rightarrow> int \<Rightarrow> snpLine" where
  "lookup outputMap counter =
     (case map_of outputMap counter of
        Some SL \<Rightarrow> SL
      | None \<Rightarrow> \<lparr>queryname = [], snps = [], idx = 0\<rparr>)"

partial_function (option) drain ::
  "(int \<times> snpLine) list \<Rightarrow> int \<Rightarrow> writer \<Rightarrow> (error option \<times> writer) option" where
  "drain outputMap counter w =
     (if length outputMap = 0 then Some (None, w)
      else (case Write (line (lookup outputMap counter)) w of
              (Some err, w') \<Rightarrow> Some (Some err, w')
            | (None, w') \<Rightarrow> drain (AList.delete counter outputMap) (counter + 1) w'))"

declare drain.simps [code]

fun receive ::
  "snpLine list \<Rightarrow> (int \<times> snpLine) list \<Rightarrow> int \<Rightarrow> writer \<Rightarrow> (error option \<times> writer) option" where
  "receive [] outputMap counter w = drain outputMap counter w"
| "receive (snpLine # cSNPs) outputMap counter w =
     (let outputMap = AList.update (idx snpLine) snpLine outputMap
      in case map_of outputMap counter of
           Some SL \<Rightarrow>
             (case Write (line SL) w of
                (Some err, w') \<Rightarrow> Some (Some err, w')
              | (None, w') \<Rightarrow> receive cSNPs (AList.delete counter outputMap) (counter + 1) w')
         | None \<Rightarrow> receive cSNPs outputMap counter w)"

definition writeOutput :: "writer \<Rightarrow> snpLine list \<Rightarrow> (error option \<times> writer) option" where
  "writeOutput w cSNPs =
     (case Write (''query,SNPs'' @ [CHR 0x0A]) w of
        (Some err, w') \<Rightarrow> Some (Some err, w')
      | (None, w') \<Rightarrow> receive cSNPs [] 0 w')"

text \<open>
  \<^verbatim>\<open>SNPs\<close>. \<^verbatim>\<open>fastaio.ReadEncodeAlignment\<close> is not part of the sources at hand: what it
  sends, in order, on its three channels is a list of events. \<open>loadRef\<close> is the first
  loop of \<^verbatim>\<open>SNPs\<close>, which receives them for the reference; it blocks forever (\<open>None\<close>)
  when nothing more is sent.
\<close>

datatype event = Record EncodedFastaRecord | Failure error | Done

fun loadRef :: "event list \<Rightarrow> u8 list \<Rightarrow> (error + u8 list) option" where
  "loadRef [] refSeq = None"
| "loadRef (Failure err # cRef) refSeq = Some (Inl err)"
| "loadRef (Record FR # cRef) refSeq = loadRef cRef (Seq FR)"
| "loadRef (Done # cRef) refSeq = Some (Inr refSeq)"

text \<open>
  The rest of \<^verbatim>\<open>SNPs\<close>, for a run in which the reader of the alignment delivers all
  its records without an error: \<open>arrived\<close> lists these records in the order in which the
  workers hand their results to the writer. The result is the error that \<^verbatim>\<open>SNPs\<close>
  returns (\<open>Inl Panic\<close> when a worker panics), or the writer at the end of a run that
  returns \<^verbatim>\<open>nil\<close>. How much was written when a run fails depends on the schedule of the
  goroutines and is not part of the result.
\<close>

definition SNPs :: "(u8 \<Rightarrow> string) \<Rightarrow> event list \<Rightarrow> EncodedFastaRecord list \<Rightarrow> writer \<Rightarrow> (error + writer) option" where
  "SNPs DA ref arrived out =
     (case loadRef ref [] of
        None \<Rightarrow> None
      | Some (Inl err) \<Rightarrow> Some (Inl err)
      | Some (Inr refSeq) \<Rightarrow>
          (case getSNPs_snps DA refSeq arrived of
             Inl e \<Rightarrow> Some (Inl e)
           | Inr cSNPs \<Rightarrow>
               (case writeOutput out cSNPs of
                  None \<Rightarrow> None
                | Some (Some err, w) \<Rightarrow> Some (Inl err)
                | Some (None, w) \<Rightarrow> Some (Inr w))))"

subsection \<open>What the selector is specified to return\<close>

text \<open>
  The minimum-distance indices of a distance vector, in ascending target order: the
  indices of the defined (non-NaN) distances that are below or equal to every defined
  distance of the vector.
\<close>

definition defined_min_indices :: "float64 list \<Rightarrow> nat list" where
  "defined_min_indices V =
     filter (\<lambda>i. V ! i \<noteq> NaN \<and> list_all (\<lambda>v. v = NaN \<or> float64_le (V ! i) v) V) [0..<length V]"


subsection \<open>The classes of a column\<close>




subsection \<open>Difference Records\<close>

text \<open>
  The columns, counted from 0 and ascending, at which two sequences are different, and
  the record of a column as package closest renders it (1-based position, base of the
  query, base of the target) and as package snps renders it (base of the reference,
  1-based position, base of the query).
\<close>

definition difference_columns :: "u8 list \<Rightarrow> u8 list \<Rightarrow> nat list" where
  "difference_columns queryV targetV =
     filter (\<lambda>r. (queryV ! r AND targetV ! r) < 16) [0..<length targetV]"

definition render :: "(u8 \<Rightarrow> string) \<Rightarrow> u8 list \<Rightarrow> u8 list \<Rightarrow> nat \<Rightarrow> string" where
  "render nucDict queryV targetV r =
     Itoa (int r + 1) @ nucDict (queryV ! r) @ nucDict (targetV ! r)"

definition render_snps :: "(u8 \<Rightarrow> string) \<Rightarrow> u8 list \<Rightarrow> u8 list \<Rightarrow> nat \<Rightarrow> string" where
  "render_snps DA refSeq seq i = DA (refSeq ! i) @ Itoa (int i + 1) @ DA (seq ! i)"

section \<open>Facts about rounding to float64\<close>

lemma round_half_even_of_int: "round_half_even (of_int n) = n"
  by (simp add: round_half_even_def)






lemma binade_of_nat:
  assumes "0 < n"
  shows "binade (of_nat n) = bitlen (int n) - 1"
proof -
  have "2 ^ nat (bitlen (int n) - 1) \<le> int n"
    using bitlen_bounds [of "int n"] assms by simp
  then have "(2::rat) ^ nat (bitlen (int n) - 1) \<le> of_int (int n)"
    by simp
  moreover have "0 \<le> bitlen (int n) - 1"
    using assms bitlen_eq_zero_iff [of "int n"] bitlen_nonneg [of "int n"] by linarith
  ultimately have "(2::rat) powi (bitlen (int n) - 1) \<le> of_nat n"
    by (simp add: power_int_def)
  then show ?thesis
    by (simp add: binade_def quotient_of_rat_of_nat bitlen_def [of 1] floorlog_def)
qed

lemma round_f64_of_nat:
  assumes "n \<le> 2 ^ 53"
  shows "round_f64 (of_nat n) = Fin (of_nat n)"
proof (cases "n = 0")
  case True
  then show ?thesis by (simp add: round_f64_def)
next
  case False
  then have pos: "0 < n" by simp
  define k where "k = bitlen (int n) - 1"
  have k0: "0 \<le> k"
    using pos bitlen_eq_zero_iff [of "int n"] bitlen_nonneg [of "int n"] by (simp add: k_def)
  have low: "2 ^ nat k \<le> int n"
    using bitlen_bounds [of "int n"] pos by (simp add: k_def)
  have "n < 2 ^ 54" using assms by simp
  then have "int n < 2 ^ 54" by simp
  then have "bitlen (int n) \<le> 54" by (simp add: bitlen_le_iff_power)
  then have k53: "k \<le> 53" by (simp add: k_def)
  define u :: rat where "u = 2 powi (k - 52)"
  have u: "0 < u" by (simp add: u_def)
  have "\<exists>M. of_nat n / u = of_int M"
  proof (cases "k \<le> 52")
    case True
    then have "1 / u = of_int (2 ^ nat (52 - k))"
      unfolding u_def by (simp add: power_int_def power_int_minus field_simps flip: power_add)
    moreover have "of_nat n / u = of_nat n * (1 / u)" by simp
    ultimately have "of_nat n / u = of_int (int n * 2 ^ nat (52 - k))" by (simp del: times_divide_eq_right)
    then show ?thesis by blast
  next
    case False
    with k53 have k: "k = 53" by simp
    with low assms have "n = 2 ^ 53"
      by simp
    then have "of_nat n / u = of_int (2 ^ 52)" by (simp add: u_def k)
    then show ?thesis by blast
  qed
  then obtain M where M: "of_nat n / u = of_int M" by blast
  moreover from M u have "of_nat n = of_int M * u" by (simp add: divide_eq_eq)
  ultimately have r: "of_int (round_half_even (of_nat n / u)) * u = of_nat n"
    by (simp add: round_half_even_of_int)
  have "(of_nat n :: rat) \<le> 2 ^ 53" using assms
    by simp
  moreover have "(2::rat) ^ 53 < 2 powi 1024" by (simp add: power_int_def)
  ultimately have big: "\<not> 2 powi 1024 \<le> (of_nat n :: rat)" by linarith
  have e: "max (binade \<bar>of_nat n\<bar>) (- 1022) = k"
    using binade_of_nat [OF pos] k0 by (simp add: k_def)
  show ?thesis
    using False pos big r e unfolding round_f64_def Let_def u_def by simp
qed

text \<open>Rounding at the numerals that the evaluation of a run meets.\<close>

lemma round_f64_0: "round_f64 0 = Fin 0"
  by (simp add: round_f64_def)

lemma round_f64_1: "round_f64 1 = Fin 1"
  using round_f64_of_nat [of 1] by simp

lemma round_f64_numeral:
  "numeral k \<le> (2 :: nat) ^ 53 \<Longrightarrow> round_f64 (numeral k) = Fin (numeral k)"
  using round_f64_of_nat [of "numeral k"] by simp

section \<open>Facts about float64 comparison\<close>

lemma float64_eq_iff: "float64_eq a b \<longleftrightarrow> a = b \<and> a \<noteq> NaN"
  by (cases a; cases b) simp_all

lemma float64_lt_not_NaN: "float64_lt a b \<Longrightarrow> a \<noteq> NaN \<and> b \<noteq> NaN"
  by (cases a; cases b) simp_all


lemma float64_lt_trans: "float64_lt a b \<Longrightarrow> float64_lt b c \<Longrightarrow> float64_lt a c"
  by (cases a; cases b; cases c) simp_all



lemma float64_le_iff: "float64_le a b \<longleftrightarrow> float64_lt a b \<or> (a = b \<and> a \<noteq> NaN)"
  by (simp add: float64_le_def float64_eq_iff)

lemma float64_le_not_NaN: "float64_le a b \<Longrightarrow> a \<noteq> NaN \<and> b \<noteq> NaN"
  by (auto simp: float64_le_iff dest: float64_lt_not_NaN)


lemma float64_le_lt_trans: "float64_le a b \<Longrightarrow> float64_lt b c \<Longrightarrow> float64_lt a c"
  by (auto simp: float64_le_iff dest: float64_lt_trans)


section \<open>The loop of getMinFloatIndices\<close>














section \<open>The loop of getMaxIntIndices\<close>







section \<open>getBestTargetIndex\<close>









text \<open>
  C5. The claim fails on the code when the first distance is undefined. The query A has
  no informative column in common with the first target N, so \<^verbatim>\<open>getDifferenceMatrix\<close>
  gives NaN there, and the distance 1 to each of the two targets T. The two targets T tie
  at the minimum and the second has the higher completeness score, but the running
  minimum starts as NaN, no later score equals it or is below it, and
  \<^verbatim>\<open>getBestTargetIndex\<close> returns index 0, the target with the undefined distance. With
  the NaN in the middle the same three targets give index 2, as the claim says.
\<close>

theorem selector_first_distance_undefined:
  "getDifferenceMatrix [[136]] [[240], [24], [24]] = Inr [[NaN, Fin 1, Fin 1]] \<and>
   defined_min_indices [NaN, Fin 1, Fin 1] = [1, 2] \<and>
   getMinFloatIndices [NaN, Fin 1, Fin 1] = [0] \<and>
   getBestTargetIndex [NaN, Fin 1, Fin 1] [1, 5, 9] = Inr 0 \<and>
   getBestTargetIndex [Fin 1, NaN, Fin 1] [5, 1, 9] = Inr 2"
  by (simp add: getDifferenceMatrix_def distance_def count_columns_def column_def index_def
      different_def same_def round_f64_1 defined_min_indices_def float64_le_def
      getBestTargetIndex_def getMinFloatIndices_def getMaxIntIndices_def)

section \<open>The counters of getDifferenceMatrix\<close>

lemma foldM_append:
  "foldM f (xs @ ys) s = (case foldM f xs s of Inl e \<Rightarrow> Inl e | Inr s' \<Rightarrow> foldM f ys s')"
  by (induction xs arbitrary: s) (auto split: sum.splits)






section \<open>Partition of the columns and bounds of the distance\<close>







section \<open>The two getSNPs\<close>

lemma getSNPs_prefix:
  assumes "n \<le> length targetV" and "n \<le> length queryV"
  shows "foldM (snp nucDict queryV targetV) [0..<n] [] =
           Inr (map (render nucDict queryV targetV)
                  (filter (\<lambda>r. (queryV ! r AND targetV ! r) < 16) [0..<n]))"
  using assms
proof (induction n)
  case 0
  then show ?case by simp
next
  case (Suc n)
  then show ?case
    by (simp add: foldM_append snp_def index_def different_def render_def add.commute)
qed

lemma getSNPs_records:
  assumes "length targetV \<le> length queryV"
  shows "getSNPs nucDict queryV targetV =
           Inr (map (render nucDict queryV targetV) (difference_columns queryV targetV))"
  using getSNPs_prefix [of "length targetV" targetV queryV nucDict] assms
  by (simp add: getSNPs_def difference_columns_def)

lemma snpLine_of_prefix:
  assumes "n \<le> length seq" and "n \<le> length refSeq"
  shows "foldM (snp_snps DA refSeq seq) [0..<n] [] =
           Inr (map (render_snps DA refSeq seq)
                  (filter (\<lambda>i. (refSeq ! i AND seq ! i) < 16) [0..<n]))"
  using assms
proof (induction n)
  case 0
  then show ?case by simp
next
  case (Suc n)
  then show ?case
    by (simp add: foldM_append snp_snps_def index_def render_snps_def add.commute)
qed

lemma snpLine_of_records:
  assumes "length (Seq FR) \<le> length refSeq"
  shows "snpLine_of DA refSeq FR =
           Inr \<lparr>queryname = ID FR,
                snps = map (render_snps DA refSeq (Seq FR)) (difference_columns refSeq (Seq FR)),
                idx = Idx FR\<rparr>"
  using snpLine_of_prefix [of "length (Seq FR)" "Seq FR" refSeq DA] assms
  by (simp add: snpLine_of_def difference_columns_def)

text \<open>
  C10. At a column where both sequences hold the same code \<open>x\<close> below 16: the column
  passes the test \<open>different\<close>; \<^verbatim>\<open>getDifferenceMatrix\<close> adds one to both of its
  counters; the column is one of the Difference Records of \<^verbatim>\<open>getSNPs\<close> of package
  closest (whose number is the SNP distance), rendered with the same letter twice; and
  likewise for \<^verbatim>\<open>getSNPs\<close> of package snps.
\<close>

theorem identical_low_codes_are_snps:
  assumes "x < 16" and "r < length targetV" and "length queryV = length targetV"
    and "queryV ! r = x" and "targetV ! r = x"
  shows "(x AND x) = x \<and> different x x \<and>
         column targetV queryV r (differences, denominator) =
           Inr (float64_add differences (Fin 1), float64_add denominator (Fin 1)) \<and>
         getSNPs nucDict queryV targetV =
           Inr (map (render nucDict queryV targetV) (difference_columns queryV targetV)) \<and>
         r \<in> set (difference_columns queryV targetV) \<and>
         render nucDict queryV targetV r = Itoa (int r + 1) @ nucDict x @ nucDict x \<and>
         snpLine_of DA targetV \<lparr>ID = name, Seq = queryV, Idx = k\<rparr> =
           Inr \<lparr>queryname = name,
                snps = map (render_snps DA targetV queryV) (difference_columns targetV queryV),
                idx = k\<rparr> \<and>
         r \<in> set (difference_columns targetV queryV) \<and>
         render_snps DA targetV queryV r = DA x @ Itoa (int r + 1) @ DA x"
proof -
  have d: "different x x" using assms(1) by (simp add: different_def)
  have c: "column targetV queryV r (differences, denominator) =
      Inr (float64_add differences (Fin 1), float64_add denominator (Fin 1))"
    using assms d by (simp add: column_def index_def)
  have g: "getSNPs nucDict queryV targetV =
      Inr (map (render nucDict queryV targetV) (difference_columns queryV targetV))"
    using assms(3) by (simp add: getSNPs_records)
  have s: "snpLine_of DA targetV \<lparr>ID = name, Seq = queryV, Idx = k\<rparr> =
      Inr \<lparr>queryname = name,
           snps = map (render_snps DA targetV queryV) (difference_columns targetV queryV),
           idx = k\<rparr>"
    using assms(3) snpLine_of_records [of "\<lparr>ID = name, Seq = queryV, Idx = k\<rparr>" targetV DA]
    by simp
  have m: "r \<in> set (difference_columns queryV targetV)" "r \<in> set (difference_columns targetV queryV)"
    using assms by (simp_all add: difference_columns_def)
  show ?thesis
    using d c g s m assms(4,5) by (simp add: render_def render_snps_def)
qed

theorem identical_low_codes_are_snps_witness:
  "getSNPs (\<lambda>x. if x = 4 then ''-'' else ''A'') [136, 4] [136, 4] = Inr [''2--''] \<and>
   snpLine_of (\<lambda>x. if x = 4 then ''-'' else ''A'') [136, 4] \<lparr>ID = ''q'', Seq = [136, 4], Idx = 0\<rparr> =
     Inr \<lparr>queryname = ''q'', snps = [''-2-''], idx = 0\<rparr> \<and>
   column [136, 4] [136, 4] 1 (Fin 0, Fin 1) = Inr (float64_add (Fin 0) (Fin 1), float64_add (Fin 1) (Fin 1))"
proof -
  have i: "Itoa 2 = ''2''" by (simp add: Itoa_def decimal.simps digit_def)
  have dc: "difference_columns [136, 4] [136, 4] = [1]"
    by (simp add: difference_columns_def)
  have "(4 :: u8) < 16" "1 < length [136, 4 :: u8]" "length [136, 4 :: u8] = length [136, 4 :: u8]"
    "[136, 4 :: u8] ! 1 = 4" "[136, 4 :: u8] ! 1 = 4" by simp_all
  from identical_low_codes_are_snps [OF this,
      of "Fin 0" "Fin 1" "\<lambda>x. if x = 4 then ''-'' else ''A''" "\<lambda>x. if x = 4 then ''-'' else ''A''" "''q''" 0]
  show ?thesis using i dc by (simp add: render_def render_snps_def)
qed

section \<open>The reference of package snps\<close>





section \<open>The reorder buffer of writeOutput\<close>

lemma write_rows_never_failing:
  "failing_after w = None \<Longrightarrow> write_rows rs w = (None, w\<lparr>contents := contents w @ rs\<rparr>)"
  by (induction rs arbitrary: w) (simp_all add: Write_def)

text \<open>
  The last loop: when the map holds exactly the lines from \<open>counter\<close> on, the loop writes
  them in ascending order, as far as the writer accepts them, and ends.
\<close>

lemma drain_rows:
  assumes "\<forall>k. map_of outputMap k =
             (if counter \<le> k \<and> k < int (length lines) then Some (lines ! nat k) else None)"
    and "0 \<le> counter" and "counter \<le> int (length lines)"
  shows "drain outputMap counter w = Some (write_rows (map line (drop (nat counter) lines)) w)"
  using assms
proof (induction "nat (int (length lines) - counter)" arbitrary: outputMap counter w)
  case 0
  then have c: "counter = int (length lines)" by simp
  have "map_of outputMap k = None" for k
    using "0.prems"(1) c by simp
  then have "map_of outputMap = Map.empty" by (intro ext)
  then have "outputMap = []" by simp
  then show ?case using c by (simp add: drain.simps)
next
  case (Suc n)
  then have c: "counter < int (length lines)" by linarith
  let ?c = "nat counter"
  have cn: "?c < length lines" using c Suc.prems(2) by linarith
  have at: "map_of outputMap counter = Some (lines ! ?c)"
    using Suc.prems(1) c by simp
  then have ne: "length outputMap \<noteq> 0" by auto
  have look: "lookup outputMap counter = lines ! ?c" by (simp add: lookup_def at)
  have rows: "map line (drop ?c lines) = line (lines ! ?c) # map line (drop (Suc ?c) lines)"
    using cn by (simp add: Cons_nth_drop_Suc [symmetric])
  have next_map: "\<forall>k. map_of (AList.delete counter outputMap) k =
      (if counter + 1 \<le> k \<and> k < int (length lines) then Some (lines ! nat k) else None)"
    using Suc.prems(1) by (auto simp: delete_conv')
  have IH: "drain (AList.delete counter outputMap) (counter + 1) w' =
      Some (write_rows (map line (drop (Suc ?c) lines)) w')" for w'
  proof -
    have "n = nat (int (length lines) - (counter + 1))" using Suc.hyps(2) by linarith
    from Suc.hyps(1) [OF this next_map] Suc.prems(2) c
    have "drain (AList.delete counter outputMap) (counter + 1) w' =
        Some (write_rows (map line (drop (nat (counter + 1)) lines)) w')" by simp
    moreover have "nat (counter + 1) = Suc ?c" using Suc.prems(2) by simp
    ultimately show ?thesis by simp
  qed
  obtain e w' where W: "Write (line (lines ! ?c)) w = (e, w')" by (cases "Write (line (lines ! ?c)) w")
  have unfold: "drain outputMap counter w =
      (case Write (line (lines ! ?c)) w of
         (Some err, w') \<Rightarrow> Some (Some err, w')
       | (None, w') \<Rightarrow> drain (AList.delete counter outputMap) (counter + 1) w')"
    using ne by (subst drain.simps) (simp only: look if_False)
  have spec: "write_rows (map line (drop ?c lines)) w =
      (case Write (line (lines ! ?c)) w of
         (Some err3, f') \<Rightarrow> (Some err3, f')
       | (None, f') \<Rightarrow> write_rows (map line (drop (Suc ?c) lines)) f')"
    by (simp only: rows write_rows.simps)
  show ?case
  proof (cases e)
    case None
    then show ?thesis unfolding unfold spec W using IH [of w'] by simp
  next
    case (Some err)
    then show ?thesis unfolding unfold spec W by simp
  qed
qed

text \<open>
  The first loop. \<open>A\<close> is the set of the indices that have arrived: the map holds the
  lines of \<open>A\<close> from \<open>counter\<close> on, every index below \<open>counter\<close> has arrived and was
  written, and the lines still to come are those of the other indices.
\<close>

lemma receive_rows:
  assumes "distinct (map idx cSNPs)"
    and "\<forall>SL\<in>set cSNPs. 0 \<le> idx SL \<and> idx SL < int (length lines) \<and>
           lines ! nat (idx SL) = SL \<and> idx SL \<notin> A"
    and "A \<union> idx ` set cSNPs = {0..<int (length lines)}"
    and "\<forall>k. map_of outputMap k = (if k \<in> A \<and> counter \<le> k then Some (lines ! nat k) else None)"
    and "0 \<le> counter" and "{0..<counter} \<subseteq> A"
  shows "receive cSNPs outputMap counter w =
           Some (write_rows (map line (drop (nat counter) lines)) w)"
  using assms
proof (induction cSNPs arbitrary: A outputMap counter w)
  case Nil
  then have A: "A = {0..<int (length lines)}" by simp
  have le: "counter \<le> int (length lines)"
  proof (rule ccontr)
    assume "\<not> counter \<le> int (length lines)"
    then have "int (length lines) \<in> {0..<counter}" by simp
    with Nil.prems(6) A show False by auto
  qed
  have "\<forall>k. map_of outputMap k =
      (if counter \<le> k \<and> k < int (length lines) then Some (lines ! nat k) else None)"
    using Nil.prems(4,5) A by auto
  from drain_rows [OF this Nil.prems(5) le] show ?case by simp
next
  case (Cons SL cSNPs)
  let ?k = "idx SL"
  let ?A = "insert ?k A"
  let ?m = "AList.update ?k SL outputMap"
  have head: "0 \<le> ?k \<and> ?k < int (length lines) \<and> lines ! nat ?k = SL \<and> ?k \<notin> A"
    using Cons.prems(2) by (simp only: list.set ball_simps insert_iff) blast
  have SL: "0 \<le> ?k" "?k < int (length lines)" "lines ! nat ?k = SL" "?k \<notin> A"
    using head by blast+
  have kc: "counter \<le> ?k"
  proof (rule ccontr)
    assume "\<not> counter \<le> ?k"
    with SL(1) have "?k \<in> {0..<counter}" by simp
    with Cons.prems(6) SL(4) show False by auto
  qed
  have 1: "distinct (map idx cSNPs)" using Cons.prems(1) by simp
  have fresh: "?k \<notin> idx ` set cSNPs" using Cons.prems(1) by simp
  have 2: "\<forall>S\<in>set cSNPs. 0 \<le> idx S \<and> idx S < int (length lines) \<and>
      lines ! nat (idx S) = S \<and> idx S \<notin> ?A"
  proof
    fix S assume S: "S \<in> set cSNPs"
    then have "S \<in> set (SL # cSNPs)" by simp
    with Cons.prems(2) have "0 \<le> idx S \<and> idx S < int (length lines) \<and>
        lines ! nat (idx S) = S \<and> idx S \<notin> A" by blast
    moreover from fresh S have "idx S \<noteq> ?k" by (metis image_eqI)
    ultimately show "0 \<le> idx S \<and> idx S < int (length lines) \<and>
        lines ! nat (idx S) = S \<and> idx S \<notin> ?A" by blast
  qed
  have 3: "?A \<union> idx ` set cSNPs = {0..<int (length lines)}"
    using Cons.prems(3) by (simp only: list.set image_insert Un_insert_left Un_insert_right)
  have m: "\<forall>j. map_of ?m j = (if j \<in> ?A \<and> counter \<le> j then Some (lines ! nat j) else None)"
    using Cons.prems(4) SL(3) kc by (auto simp: update_conv')
  show ?case
  proof (cases "map_of ?m counter")
    case None
    have "{0..<counter} \<subseteq> ?A" using Cons.prems(6) by auto
    from Cons.IH [OF 1 2 3 m Cons.prems(5) this, of w] None show ?thesis
      by (simp only: receive.simps Let_def option.case)
  next
    case (Some S)
    with m have cA: "counter \<in> ?A" and S: "S = lines ! nat counter"
      by (auto split: if_splits)
    have "counter \<in> {0..<int (length lines)}" using cA 3 by blast
    then have cn: "nat counter < length lines" by (simp add: nat_less_iff)
    have rows: "map line (drop (nat counter) lines) =
        line (lines ! nat counter) # map line (drop (Suc (nat counter)) lines)"
      using cn by (simp add: Cons_nth_drop_Suc [symmetric])
    have m': "\<forall>j. map_of (AList.delete counter ?m) j =
        (if j \<in> ?A \<and> counter + 1 \<le> j then Some (lines ! nat j) else None)"
      using m by (auto simp: delete_conv')
    have 5: "0 \<le> counter + 1" using Cons.prems(5) by simp
    have 6: "{0..<counter + 1} \<subseteq> ?A"
    proof
      fix j assume "j \<in> {0..<counter + 1}"
      then have "j \<in> {0..<counter} \<or> j = counter" by auto
      with Cons.prems(6) cA show "j \<in> ?A" by auto
    qed
    have IH: "receive cSNPs (AList.delete counter ?m) (counter + 1) w' =
        Some (write_rows (map line (drop (Suc (nat counter)) lines)) w')" for w'
    proof -
      have "nat (counter + 1) = Suc (nat counter)" using Cons.prems(5) by simp
      with Cons.IH [OF 1 2 3 m' 5 6, of w'] show ?thesis by simp
    qed
    obtain e w' where W: "Write (line (lines ! nat counter)) w = (e, w')"
      by (cases "Write (line (lines ! nat counter)) w")
    have at: "map_of ?m counter = Some (lines ! nat counter)" using Some S by simp
    have unfold: "receive (SL # cSNPs) outputMap counter w =
        (case Write (line (lines ! nat counter)) w of
           (Some err, w') \<Rightarrow> Some (Some err, w')
         | (None, w') \<Rightarrow> receive cSNPs (AList.delete counter ?m) (counter + 1) w')"
      by (simp only: receive.simps Let_def at option.case)
    have spec: "write_rows (map line (drop (nat counter) lines)) w =
        (case Write (line (lines ! nat counter)) w of
           (Some err3, f') \<Rightarrow> (Some err3, f')
         | (None, f') \<Rightarrow> write_rows (map line (drop (Suc (nat counter)) lines)) f')"
      by (simp only: rows write_rows.simps)
    show ?thesis
    proof (cases e)
      case None
      then show ?thesis unfolding unfold spec W using IH [of w'] by simp
    next
      case (Some err)
      then show ?thesis unfolding unfold spec W by simp
    qed
  qed
qed

text \<open>
  C1. Let \<open>lines\<close> be the results of the \<open>N\<close> query records in input order (the result of
  record \<open>i\<close> carries the index \<open>i\<close>), and let them arrive at the writer in any order. Then
  \<^verbatim>\<open>writeOutput\<close> ends, and it has made exactly the writes of the header followed by the
  rows in input order, one after the other up to the first write that fails, if any.
  With a writer that does not fail the output is the header and one row per record, in
  ascending order of the index.
\<close>

theorem writeOutput_input_order:
  assumes "map idx lines = map int [0..<length lines]" and "mset cSNPs = mset lines"
  shows "writeOutput w cSNPs =
           Some (write_rows ((''query,SNPs'' @ [CHR 0x0A]) # map line lines) w) \<and>
         (failing_after w = None \<longrightarrow>
            writeOutput w cSNPs =
              Some (None, w\<lparr>contents := contents w @ (''query,SNPs'' @ [CHR 0x0A]) # map line lines\<rparr>))"
proof -
  have idx_nth: "idx (lines ! j) = int j" if "j < length lines" for j
  proof -
    have "map idx lines ! j = map int [0..<length lines] ! j" using assms(1) by simp
    with that show ?thesis by simp
  qed
  have sets: "set cSNPs = set lines" using assms(2) by (metis set_mset_mset)
  have "mset (map idx cSNPs) = mset (map idx lines)" using assms(2) by (metis mset_map)
  moreover have "distinct (map idx lines)"
    unfolding assms(1) by (simp add: distinct_map)
  ultimately have 1: "distinct (map idx cSNPs)" by (metis mset_eq_imp_distinct_iff)
  have 2: "\<forall>SL\<in>set cSNPs. 0 \<le> idx SL \<and> idx SL < int (length lines) \<and>
      lines ! nat (idx SL) = SL \<and> idx SL \<notin> {}"
  proof
    fix SL assume "SL \<in> set cSNPs"
    with sets obtain j where j: "j < length lines" "lines ! j = SL"
      by (metis in_set_conv_nth)
    with idx_nth [OF j(1)] show "0 \<le> idx SL \<and> idx SL < int (length lines) \<and>
        lines ! nat (idx SL) = SL \<and> idx SL \<notin> {}" by auto
  qed
  have "idx ` set cSNPs = set (map idx lines)" using sets by simp
  also have "\<dots> = int ` {0..<length lines}" unfolding assms(1) by simp
  also have "\<dots> = {0..<int (length lines)}" by (simp add: image_int_atLeastLessThan)
  finally have 3: "{} \<union> idx ` set cSNPs = {0..<int (length lines)}" by simp
  have 4: "\<forall>k. map_of [] k = (if k \<in> {} \<and> 0 \<le> k then Some (lines ! nat k) else None)"
    by simp
  have rec: "receive cSNPs [] 0 w' = Some (write_rows (map line lines) w')" for w'
    using receive_rows [OF 1 2 3 4, of w'] by simp
  obtain e w' where W: "Write (''query,SNPs'' @ [CHR 0x0A]) w = (e, w')"
    by (cases "Write (''query,SNPs'' @ [CHR 0x0A]) w")
  have main: "writeOutput w cSNPs =
      Some (write_rows ((''query,SNPs'' @ [CHR 0x0A]) # map line lines) w)"
    using W rec [of w'] by (cases e) (simp_all add: writeOutput_def)
  show ?thesis
  proof (intro conjI impI)
    show "writeOutput w cSNPs =
        Some (write_rows ((''query,SNPs'' @ [CHR 0x0A]) # map line lines) w)"
      by (rule main)
  next
    assume "failing_after w = None"
    then have "write_rows ((''query,SNPs'' @ [CHR 0x0A]) # map line lines) w =
        (None, w\<lparr>contents := contents w @ (''query,SNPs'' @ [CHR 0x0A]) # map line lines\<rparr>)"
      by (rule write_rows_never_failing)
    with main show "writeOutput w cSNPs =
        Some (None, w\<lparr>contents := contents w @ (''query,SNPs'' @ [CHR 0x0A]) # map line lines\<rparr>)"
      by (simp only:)
  qed
qed

theorem writeOutput_input_order_witness:
  "writeOutput \<lparr>contents = [], failing_after = None\<rparr>
     [\<lparr>queryname = ''c'', snps = [], idx = 2\<rparr>,
      \<lparr>queryname = ''a'', snps = [''C2G'', ''A4T''], idx = 0\<rparr>,
      \<lparr>queryname = ''b'', snps = [''C2G''], idx = 1\<rparr>] =
   Some (None, \<lparr>contents = [''query,SNPs'' @ [CHR 0x0A], ''a,C2G|A4T'' @ [CHR 0x0A],
                             ''b,C2G'' @ [CHR 0x0A], ''c,'' @ [CHR 0x0A]],
                 failing_after = None\<rparr>)"
proof -
  let ?a = "\<lparr>queryname = ''a'', snps = [''C2G'', ''A4T''], idx = 0\<rparr>"
  let ?b = "\<lparr>queryname = ''b'', snps = [''C2G''], idx = 1\<rparr>"
  let ?c = "\<lparr>queryname = ''c'', snps = [], idx = 2\<rparr>"
  have 1: "map idx [?a, ?b, ?c] = map int [0..<length [?a, ?b, ?c]]"
    by (simp add: upt_rec)
  have 2: "mset [?c, ?a, ?b] = mset [?a, ?b, ?c]" by simp
  have 3: "failing_after \<lparr>contents = [], failing_after = None\<rparr> = None" by simp
  from writeOutput_input_order [OF 1 2, of "\<lparr>contents = [], failing_after = None\<rparr>", THEN conjunct2, rule_format, OF 3]
  show ?thesis by (simp add: line_def)
qed

section \<open>Errors of a run\<close>

text \<open>
  The width check of \<^verbatim>\<open>Closest\<close>: when the first query sequence and the first target
  sequence differ in length, the run returns the error and creates no file.
\<close>

lemma Closest_width_mismatch:
  assumes "length QA = length Qnames" and "length TA = length Tnames"
    and "QA \<noteq> []" and "TA \<noteq> []" and "length (QA ! 0) \<noteq> length (TA ! 0)"
  shows "Closest nucDict scoreDict (Inr (QA, Qnames)) (Inr (TA, Tnames)) threads arrival env =
           (Some (Err ''query and target alignments are not the same width''), None)"
  using assms by (auto simp: Closest_def index_def)

text \<open>
  C4. \<^verbatim>\<open>writeResults\<close> returns the error of a failed creation or write, but
  \<^verbatim>\<open>Closest\<close> drops what \<^verbatim>\<open>writeResults\<close> returns and returns \<^verbatim>\<open>nil\<close>. With one
  query and one target: when the file cannot be created, and when the second write
  fails and the file holds the header alone, \<^verbatim>\<open>Closest\<close> returns \<^verbatim>\<open>nil\<close>.
\<close>

theorem Closest_drops_write_error:
  "writeResults [[''q,t,0,'' @ [CHR 0x0A]]] \<lparr>create_error = Some (Err ''permission denied''), write_limit = None\<rparr> =
     (Some (Err ''permission denied''), None) \<and>
   Closest (\<lambda>x. ''A'') (\<lambda>x. 1) (Inr ([[136]], [''q''])) (Inr ([[136]], [''t''])) 1 [0]
     \<lparr>create_error = Some (Err ''permission denied''), write_limit = None\<rparr> = (None, None) \<and>
   writeResults [[''q,t,0,'' @ [CHR 0x0A]]] \<lparr>create_error = None, write_limit = Some 1\<rparr> =
     (Some (Err ''write failed''),
      Some \<lparr>contents = [''query,closest,SNPdistance,SNPs'' @ [CHR 0x0A]], failing_after = Some 0\<rparr>) \<and>
   Closest (\<lambda>x. ''A'') (\<lambda>x. 1) (Inr ([[136]], [''q''])) (Inr ([[136]], [''t''])) 1 [0]
     \<lparr>create_error = None, write_limit = Some 1\<rparr> =
     (None,
      Some \<lparr>contents = [''query,closest,SNPdistance,SNPs'' @ [CHR 0x0A]], failing_after = Some 0\<rparr>)"
  by (simp add: Closest_def writeResults_def Create_def Write_def index_def scoreAlignment_def
      float64_of_int_def round_f64_1 chunk_def slice_def processChunk_def getDifferenceMatrix_def
      distance_def count_columns_def column_def different_def same_def round_f64_0
      chunk_row_def getBestTargetIndex_def getMinFloatIndices_def getSNPs_def snp_def
      collect_def Itoa_def decimal.simps digit_def)

text \<open>
  C9. \<^verbatim>\<open>SNPs\<close> and its workers never compare the width of the reference with the width
  of a query. With a reference of 5 columns and a query of 4 the run returns \<^verbatim>\<open>nil\<close>
  and writes the row of the query; with a reference of 4 columns and a query of 5 a worker
  panics at \<^verbatim>\<open>refSeq[4]\<close>.
\<close>

theorem SNPs_width_not_checked:
  "SNPs (\<lambda>x. if x = 136 then ''A'' else if x = 40 then ''C'' else if x = 72 then ''G'' else ''T'')
     [Record \<lparr>ID = ''ref'', Seq = [136, 40, 72, 24, 136], Idx = 0\<rparr>, Done]
     [\<lparr>ID = ''q'', Seq = [136, 72, 72, 24], Idx = 0\<rparr>]
     \<lparr>contents = [], failing_after = None\<rparr> =
   Some (Inr \<lparr>contents = [''query,SNPs'' @ [CHR 0x0A], ''q,C2G'' @ [CHR 0x0A]], failing_after = None\<rparr>) \<and>
   SNPs (\<lambda>x. if x = 136 then ''A'' else if x = 40 then ''C'' else if x = 72 then ''G'' else ''T'')
     [Record \<lparr>ID = ''ref'', Seq = [136, 40, 72, 24], Idx = 0\<rparr>, Done]
     [\<lparr>ID = ''q'', Seq = [136, 72, 72, 24, 136], Idx = 0\<rparr>]
     \<lparr>contents = [], failing_after = None\<rparr> =
   Some (Inl Panic)"
  by code_simp

end
